theory Spec2Isabelle
  imports Complex_Main "HOL-Library.Word"
begin

unbundle bit_operations_syntax

section \<open>Common types\<close>

text \<open>
  Object references are addresses; \<open>None\<close> is the null reference (\<open>NULL\<close>, \<open>nullptr\<close>,
  Java's \<open>null\<close>).  JNI's \<open>jint\<close> and Java's \<open>int\<close> are 32-bit two's complement words,
  Java's \<open>long\<close> is a 64-bit word, and a \<open>double\<close> is carried as its raw IEEE 754 bit
  pattern (the only double constant the modelled code writes is \<open>0.0d\<close>, the all-zero
  pattern).
\<close>

type_synonym addr = nat
type_synonym jint = "32 word"
type_synonym jlong = "64 word"
type_synonym jdouble = "64 word"

section \<open>WLVKSurfaceData.cpp: \<open>Java_sun_java2d_vulkan_WLVKSurfaceData_initOps\<close>\<close>

text \<open>
  The native entry point receives \<open>width\<close>, \<open>height\<close> and \<open>backgroundRGB\<close> from Java.
  What the environment answers is an argument of the model: whether the file was compiled
  with \<open>HEADLESS\<close>, the pointer returned by \<open>SurfaceData_InitOps\<close> and the pointer
  returned by \<open>malloc\<close>.  The result records everything the function has done when it
  returns: the pending Java exception, the values of the parameters \<open>width\<close> and
  \<open>height\<close> (they are assigned to in the body), the private ops pointer, whether the four
  function pointers were installed and whether the recursive mutex was initialised.
\<close>

record initOps_outcome =
  pendingException :: "string option"
  width :: jint
  height :: jint
  privOps :: "addr option"
  sdOpsInstalled :: bool
  lockInitialized :: bool

definition Java_sun_java2d_vulkan_WLVKSurfaceData_initOps ::
  "bool \<Rightarrow> addr option \<Rightarrow> addr option \<Rightarrow> jint \<Rightarrow> jint \<Rightarrow> jint \<Rightarrow> initOps_outcome" where
  "Java_sun_java2d_vulkan_WLVKSurfaceData_initOps HEADLESS SurfaceData_InitOps malloc
       width0 height0 backgroundRGB =
     (let entry = \<lparr> pendingException = None, width = width0, height = height0,
                     privOps = None, sdOpsInstalled = False, lockInitialized = False \<rparr>
      in if HEADLESS then entry
         else (case SurfaceData_InitOps of
           None \<Rightarrow> entry \<lparr> pendingException := Some ''Initialization of SurfaceData failed.'' \<rparr>
         | Some vsdo \<Rightarrow>
             (let w = (if width0 \<le>s 0 then 1 else width0);
                  h = (if height0 \<le>s 0 then 1 else height0);
                  clamped = entry \<lparr> width := w, height := h \<rparr>
              in (case malloc of
                    None \<Rightarrow> clamped \<lparr> pendingException := Some ''creating native WLVK ops'' \<rparr>
                  | Some wlvksdOps \<Rightarrow>
                      clamped \<lparr> privOps := Some wlvksdOps, sdOpsInstalled := True,
                                lockInitialized := True \<rparr>))))"

section \<open>RendererContext.java\<close>

text \<open>
  The context holds its pipeline stages through \<open>final\<close> fields: each is a reference to
  an object created once by the constructor.  The model keeps the reference (an address)
  in the context and the object's state in a store, so that "the same object" and "the
  object's state" are different statements.  The stage classes themselves
  (\<open>NormalizingPathIterator\<close>, \<open>Dasher\<close>, \<open>Stroker\<close>, \<open>Renderer\<close>, \<open>MarlinCache\<close>, ...)
  are outside this file: their state is a type parameter \<open>'s\<close> and their \<open>dispose\<close>
  methods are arguments of \<open>dispose\<close>.  In the same way \<open>java.awt.geom.Path2D.Double\<close> is
  a type parameter \<open>'p\<close>, with its constructor and its \<open>reset\<close> method as arguments of
  \<open>getPath2D\<close>.
\<close>

datatype 'a WeakReference = WeakReference (referent: "'a option")

definition WeakReference_get :: "'a WeakReference \<Rightarrow> 'a option" where
  "WeakReference_get r = referent r"

record RendererStats =
  totalOffHeap :: jlong
  totalOffHeapMax :: jlong

record RendererContext =
  dirty :: bool
  nPCPathIterator :: addr
  nPQPathIterator :: addr
  transformerPC2D :: addr
  refPath2D :: "addr WeakReference option"
  renderer :: addr
  stroker :: addr
  simplifier :: addr
  pathSimplifier :: addr
  dasher :: addr
  ptg :: addr
  ftg :: addr
  cache :: addr
  stroking :: jint
  doClip :: bool
  closedPath :: bool
  clipInvScale :: jdouble
  monotonizer :: addr
  firstFlags :: jint
  curveClipSplitter :: addr
  stats :: "RendererStats option"

record ('s, 'p) jvm =
  ctx :: RendererContext
  stages :: "addr \<Rightarrow> 's"
  paths :: "addr \<Rightarrow> 'p"
  nextAddr :: addr

datatype java_exn = NullPointerException

text \<open>
  \<open>dispose()\<close>, lines 167 to 196.  \<open>DO_STATS\<close> is a constant of \<open>MarlinConst\<close>; with it
  set, \<open>stats\<close> is dereferenced, and a null \<open>stats\<close> raises before anything is written.
  The four stage disposals run in the source's order, each on the store the previous one
  left.
\<close>

definition dispose_stats :: "RendererStats \<Rightarrow> RendererStats" where
  "dispose_stats s =
     (let s1 = (if totalOffHeapMax s <s totalOffHeap s
                then s \<lparr> totalOffHeapMax := totalOffHeap s \<rparr> else s)
      in s1 \<lparr> totalOffHeap := 0 \<rparr>)"

definition dispose ::
  "bool \<Rightarrow> ('s \<Rightarrow> 's) \<Rightarrow> ('s \<Rightarrow> 's) \<Rightarrow> ('s \<Rightarrow> 's) \<Rightarrow> ('s, 'p) jvm
     \<Rightarrow> java_exn + ('s, 'p) jvm" where
  "dispose DO_STATS NormalizingPathIterator_dispose Dasher_dispose Stroker_dispose st =
     (if DO_STATS \<and> stats (ctx st) = None then Inl NullPointerException
      else
        (let c = ctx st;
             c1 = (if DO_STATS then c \<lparr> stats := map_option dispose_stats (stats c) \<rparr> else c);
             c2 = c1 \<lparr> stroking := 0, doClip := False, closedPath := False,
                       clipInvScale := 0, firstFlags := 0 \<rparr>
         in if dirty c2 then
              (let h = stages st;
                   h1 = h (nPCPathIterator c2 := NormalizingPathIterator_dispose (h (nPCPathIterator c2)));
                   h2 = h1 (nPQPathIterator c2 := NormalizingPathIterator_dispose (h1 (nPQPathIterator c2)));
                   h3 = h2 (dasher c2 := Dasher_dispose (h2 (dasher c2)));
                   h4 = h3 (stroker c2 := Stroker_dispose (h3 (stroker c2)))
               in Inr (st \<lparr> ctx := c2 \<lparr> dirty := False \<rparr>, stages := h4 \<rparr>))
            else Inr (st \<lparr> ctx := c2 \<rparr>)))"

text \<open>
  \<open>getPath2D()\<close>, lines 198 to 212.  \<open>WIND_NON_ZERO\<close> and \<open>INITIAL_EDGES_COUNT\<close> are
  constants of \<open>MarlinConst\<close>.  \<open>new\<close> takes the next free address; the new
  \<open>WeakReference\<close> object is only ever reached through the field, so it is kept by value
  there.  The function returns the reference \<open>p2d\<close> and the new state.
\<close>

definition getPath2D ::
  "(jint \<Rightarrow> jint \<Rightarrow> 'p) \<Rightarrow> ('p \<Rightarrow> 'p) \<Rightarrow> jint \<Rightarrow> jint \<Rightarrow> ('s, 'p) jvm
     \<Rightarrow> addr \<times> ('s, 'p) jvm" where
  "getPath2D Path2D_new Path2D_reset WIND_NON_ZERO INITIAL_EDGES_COUNT st =
     (let resolved = (case refPath2D (ctx st) of
                        None \<Rightarrow> None
                      | Some r \<Rightarrow> WeakReference_get r);
          (p2d, st1) = (case resolved of
                          None \<Rightarrow>
                            (let a = nextAddr st
                             in (a, st \<lparr> ctx := (ctx st) \<lparr> refPath2D := Some (WeakReference (Some a)) \<rparr>,
                                        paths := (paths st) (a := Path2D_new WIND_NON_ZERO INITIAL_EDGES_COUNT),
                                        nextAddr := Suc a \<rparr>))
                        | Some a \<Rightarrow> (a, st))
      in (p2d, st1 \<lparr> paths := (paths st1) (p2d := Path2D_reset (paths st1 p2d)) \<rparr>))"

text \<open>
  The Java runtime may clear a weak reference whose referent is no longer strongly
  reachable; once the caller of \<open>getPath2D\<close> has dropped the path, nothing but the weak
  reference reaches it.  \<open>collect\<close> is that step of the garbage collector.
\<close>

definition collect :: "('s, 'p) jvm \<Rightarrow> ('s, 'p) jvm" where
  "collect st = st \<lparr> ctx := (ctx st) \<lparr> refPath2D :=
       map_option (\<lambda>r. WeakReference None) (refPath2D (ctx st)) \<rparr> \<rparr>"

text \<open>
  A stand-in for \<open>Path2D.Double\<close>, used where a concrete path type is needed: the winding
  rule, the initial capacity, and the numbers of stored segment types and coordinates.
  \<open>reset()\<close> forgets all segments by setting both counts to zero.
\<close>

record Path2D_Double =
  windingRule :: jint
  initialCapacity :: jint
  numTypes :: jint
  numCoords :: jint

definition Path2D_Double_new :: "jint \<Rightarrow> jint \<Rightarrow> Path2D_Double" where
  "Path2D_Double_new rule cap =
     \<lparr> windingRule = rule, initialCapacity = cap, numTypes = 0, numCoords = 0 \<rparr>"

definition Path2D_Double_reset :: "Path2D_Double \<Rightarrow> Path2D_Double" where
  "Path2D_Double_reset p = p \<lparr> numTypes := 0, numCoords := 0 \<rparr>"

definition Path2D_Double_isEmpty :: "Path2D_Double \<Rightarrow> bool" where
  "Path2D_Double_isEmpty p \<longleftrightarrow> numTypes p = 0 \<and> numCoords p = 0"

text \<open>
  A context as the constructor leaves it (every stage a distinct object, the path
  reference null, the per-operation fields at their initialisers), over stages whose
  state is a number, and the same context marked dirty after a failed operation that
  had started stroking a clipped, closed shape.
\<close>

definition ctx0 :: RendererContext where
  "ctx0 = \<lparr> dirty = False, nPCPathIterator = 1, nPQPathIterator = 2, transformerPC2D = 5,
            refPath2D = None, renderer = 7, stroker = 10, simplifier = 11, pathSimplifier = 12,
            dasher = 13, ptg = 9, ftg = 8, cache = 6, stroking = 0, doClip = False,
            closedPath = False, clipInvScale = 0, monotonizer = 3, firstFlags = 0,
            curveClipSplitter = 4, stats = None \<rparr>"

definition jvm0 :: "(nat, Path2D_Double) jvm" where
  "jvm0 = \<lparr> ctx = ctx0, stages = (\<lambda>a. 100 + a),
            paths = (\<lambda>a. \<lparr> windingRule = 0, initialCapacity = 0, numTypes = 3, numCoords = 6 \<rparr>),
            nextAddr = 14 \<rparr>"

definition jvm_dirty :: "(nat, Path2D_Double) jvm" where
  "jvm_dirty = jvm0 \<lparr> ctx := ctx0 \<lparr> dirty := True, stroking := 1, doClip := True,
       closedPath := True, clipInvScale := 4607182418800017408, firstFlags := 5 \<rparr> \<rparr>"

text \<open>
  A context whose recycled path is still referenced and has been used: it holds three
  segments.
\<close>

definition jvm_reuse :: "(nat, Path2D_Double) jvm" where
  "jvm_reuse = jvm0 \<lparr> ctx := ctx0 \<lparr> refPath2D := Some (WeakReference (Some 14)) \<rparr>,
       nextAddr := 15 \<rparr>"

text \<open>
  The constructor gives every stage field its own new object (lines 73, 75 and 140 to
  158) and sets \<open>stats\<close> to a non-null object whenever \<open>DO_STATS\<close> holds (lines 129 to
  137).  Both facts are hypotheses below.
\<close>

definition stage_refs :: "RendererContext \<Rightarrow> addr list" where
  "stage_refs c = [nPCPathIterator c, nPQPathIterator c, transformerPC2D c, renderer c,
     stroker c, simplifier c, pathSimplifier c, dasher c, ptg c, ftg c, cache c,
     monotonizer c, curveClipSplitter c]"

section \<open>Array cache\<close>

text \<open>
  Modelled from the spec: the array caches (\<open>ArrayCacheIntClean\<close>, \<open>ArrayCacheInt\<close> and
  their \<open>Reference\<close> classes), of which \<open>RendererContext\<close> only holds the fields and the
  \<open>new...ArrayRef\<close> methods that call \<open>createRef\<close>.  The spec describes a pooled array as
  a resizable buffer with a capacity and a "taken" flag, owned by at most one checkout
  at a time, whose contents on release are zeroed in a clean pool and left as they are
  in a dirty pool, and whose capacity only grows (3); the contract is
  \<open>checkout(minCapacity) -> (buffer, previousLength)\<close> and
  \<open>release(buffer, newLength)\<close>, where a clean pool zero-fills the region beyond
  \<open>newLength\<close> at release, a dirty pool clears nothing, and a resize at least doubles
  the capacity (4.10); the design notes call the clean pool "zero-on-release" (9).  A
  buffer is named by its index in the pool.
\<close>

datatype pool_kind = CleanPool | DirtyPool

record pooled_array =
  elems :: "jint list"
  taken :: bool
  lastLength :: nat

record array_cache =
  poolKind :: pool_kind
  arrays :: "pooled_array list"

datatype cache_error = NotCheckedOut | OutOfBounds

fun first_idle :: "pooled_array list \<Rightarrow> nat option" where
  "first_idle [] = None"
| "first_idle (a # as) = (if \<not> taken a then Some 0 else map_option Suc (first_idle as))"

text \<open>
  Modelled from the spec: the growth policy of the missing array cache, "capacity at
  least doubles on resize" and "capacity only grows".  A buffer that is too small for
  the requested capacity is extended with zeros to twice its capacity, or to the
  requested capacity when that is more.
\<close>

definition grow :: "nat \<Rightarrow> jint list \<Rightarrow> jint list" where
  "grow minCapacity xs =
     (if length xs < minCapacity
      then xs @ replicate (max (2 * length xs) minCapacity - length xs) 0
      else xs)"

text \<open>
  Modelled from the spec: \<open>checkout(minCapacity) -> (buffer, previousLength)\<close> of the
  missing array cache.  It hands out the first buffer that is not taken, enlarged when
  it is too small, with the length recorded at its last release; when every buffer is
  taken it makes a new zero-filled buffer of the requested capacity.
\<close>

definition checkout :: "nat \<Rightarrow> array_cache \<Rightarrow> (nat \<times> nat) \<times> array_cache" where
  "checkout minCapacity c =
     (case first_idle (arrays c) of
        None \<Rightarrow>
          ((length (arrays c), 0),
           c \<lparr> arrays := arrays c @
                 [\<lparr> elems = replicate minCapacity 0, taken = True, lastLength = 0 \<rparr>] \<rparr>)
      | Some i \<Rightarrow>
          (let a = arrays c ! i
           in ((i, lastLength a),
               c \<lparr> arrays := (arrays c) [i := a \<lparr> elems := grow minCapacity (elems a),
                                                  taken := True \<rparr>] \<rparr>)))"

text \<open>The caller, holding buffer \<open>i\<close>, writes \<open>xs\<close> to its first \<open>length xs\<close> elements.\<close>

definition write_elems :: "nat \<Rightarrow> jint list \<Rightarrow> array_cache \<Rightarrow> cache_error + array_cache" where
  "write_elems i xs c =
     (if \<not> (i < length (arrays c) \<and> taken (arrays c ! i)) then Inl NotCheckedOut
      else if length (elems (arrays c ! i)) < length xs then Inl OutOfBounds
      else Inr (c \<lparr> arrays := (arrays c)
                  [i := (arrays c ! i) \<lparr> elems := xs @ drop (length xs) (elems (arrays c ! i)) \<rparr>] \<rparr>))"

text \<open>
  Modelled from the spec: \<open>release(buffer, newLength)\<close> of the missing array cache.  In
  a clean pool the contents of the buffer are zeroed ("on release its contents are
  zeroed", section 3; "zero-on-release", section 9), which leaves the region beyond
  \<open>newLength\<close> zero-filled as section 4.10 asks; in a dirty pool they are left as they
  are.  Releasing a buffer that is not checked out is an error.
\<close>

definition release :: "nat \<Rightarrow> nat \<Rightarrow> array_cache \<Rightarrow> cache_error + array_cache" where
  "release i newLength c =
     (if \<not> (i < length (arrays c) \<and> taken (arrays c ! i)) then Inl NotCheckedOut
      else
        (let a = arrays c ! i;
             cleared = (case poolKind c of
                          CleanPool \<Rightarrow> replicate (length (elems a)) 0
                        | DirtyPool \<Rightarrow> elems a)
         in Inr (c \<lparr> arrays := (arrays c)
                     [i := \<lparr> elems = cleared, taken = False, lastLength = newLength \<rparr>] \<rparr>)))"

text \<open>
  The round trip of the spec's testable property: check out with capacity \<open>m\<close>, write
  \<open>xs\<close>, release with \<open>newLength\<close>, check out again with capacity \<open>m'\<close>; the result is
  the elements of the buffer that the second checkout returns.
\<close>

definition round_trip ::
  "nat \<Rightarrow> jint list \<Rightarrow> nat \<Rightarrow> nat \<Rightarrow> array_cache \<Rightarrow> cache_error + jint list" where
  "round_trip m xs newLength m' c =
     (let ((i, p), c1) = checkout m c
      in case write_elems i xs c1 of
           Inl e \<Rightarrow> Inl e
         | Inr c2 \<Rightarrow>
             (case release i newLength c2 of
                Inl e \<Rightarrow> Inl e
              | Inr c3 \<Rightarrow>
                  (let ((j, q), c4) = checkout m' c3
                   in Inr (elems (arrays c4 ! j)))))"

text \<open>A clean pool and a dirty pool with one buffer in use and one idle buffer of capacity 4.\<close>

definition pool_example :: "pool_kind \<Rightarrow> array_cache" where
  "pool_example k = \<lparr> poolKind = k, arrays =
     [\<lparr> elems = [7, 7], taken = True, lastLength = 0 \<rparr>,
      \<lparr> elems = [0, 0, 0, 0], taken = False, lastLength = 3 \<rparr>] \<rparr>"

section \<open>Dasher\<close>

text \<open>
  Modelled from the spec: the \<open>Dasher\<close> class, of which \<open>RendererContext\<close> only holds
  the field \<open>dasher\<close>.  The spec (4.6) gives its input as a dash pattern (an ordered
  sequence of positive lengths alternating on and off) and a starting phase offset, and
  its algorithm as a walk along the path that tracks the cumulative arc length against a
  repeating cursor into the dash pattern; the output consists of the "on" sub-segments
  only, each one on its own.  On a straight segment the walk is one-dimensional: a
  position is an arc-length offset from the start of the segment, and an "on"
  sub-segment is the pair of the offsets where it starts and ends.  Lengths are real
  numbers.
\<close>

record dash_cursor =
  dashIdx :: nat
  dashUsed :: real
  dashOn :: bool

definition dash_valid :: "real list \<Rightarrow> bool" where
  "dash_valid dash \<longleftrightarrow> dash \<noteq> [] \<and> list_all (\<lambda>d. 0 < d) dash"

definition cursor_valid :: "real list \<Rightarrow> dash_cursor \<Rightarrow> bool" where
  "cursor_valid dash cur \<longleftrightarrow>
     dashIdx cur < length dash \<and> 0 \<le> dashUsed cur \<and> dashUsed cur < dash ! dashIdx cur"

definition next_dash :: "real list \<Rightarrow> dash_cursor \<Rightarrow> dash_cursor" where
  "next_dash dash cur =
     \<lparr> dashIdx = (dashIdx cur + 1) mod length dash, dashUsed = 0, dashOn = \<not> dashOn cur \<rparr>"

definition emit :: "dash_cursor \<Rightarrow> real \<Rightarrow> real \<Rightarrow> (real \<times> real) list" where
  "emit cur from to = (if dashOn cur then [(from, to)] else [])"

text \<open>
  Modelled from the spec: the walk of the missing \<open>Dasher\<close> that "tracks cumulative arc
  length against a repeating cursor into the dash pattern".
  \<open>dash_walk dash cur pos len\<close> walks \<open>len\<close> units of arc length starting at offset
  \<open>pos\<close>, with the cursor \<open>cur\<close>: while the rest of the current pattern entry is shorter
  than what is left to walk, it closes the entry (emitting it when it is an "on" entry)
  and moves the cursor to the next entry, wrapping around at the end of the pattern.
  The measure for termination counts the pattern entries that can still be crossed.
\<close>

function dash_walk ::
  "real list \<Rightarrow> dash_cursor \<Rightarrow> real \<Rightarrow> real \<Rightarrow> (real \<times> real) list \<times> dash_cursor" where
  "dash_walk dash cur pos len =
     (if \<not> dash_valid dash \<or> \<not> cursor_valid dash cur \<or> len \<le> 0 then ([], cur)
      else
        (let left = dash ! dashIdx cur - dashUsed cur
         in if len < left then (emit cur pos (pos + len), cur \<lparr> dashUsed := dashUsed cur + len \<rparr>)
            else if len = left then (emit cur pos (pos + len), next_dash dash cur)
            else (let (segs, cur') = dash_walk dash (next_dash dash cur) (pos + left) (len - left)
                  in (emit cur pos (pos + left) @ segs, cur'))))"
  by pat_completeness auto

definition dash_min :: "real list \<Rightarrow> real" where
  "dash_min dash = Min (set dash)"

termination dash_walk
proof (relation "measure (\<lambda>(dash, cur, pos, len).
           2 * nat \<lceil>len / dash_min dash\<rceil> + (if dashUsed cur = 0 then 0 else 1))")
  show "wf (measure (\<lambda>(dash, cur, pos, len).
           2 * nat \<lceil>len / dash_min dash\<rceil> + (if dashUsed cur = 0 then 0 else 1)))"
    by simp
next
  fix dash :: "real list" and cur :: dash_cursor and pos len left :: real
  assume a: "\<not> (\<not> dash_valid dash \<or> \<not> cursor_valid dash cur \<or> len \<le> 0)"
    and l: "left = dash ! dashIdx cur - dashUsed cur"
    and n1: "\<not> len < left" and n2: "len \<noteq> left"
  from a have v: "dash_valid dash" and c: "cursor_valid dash cur" and lp: "0 < len"
    by auto
  let ?m = "dash_min dash"
  have m: "0 < ?m"
    using v by (auto simp add: dash_valid_def dash_min_def list_all_iff)
  from c have i: "dashIdx cur < length dash" and u: "0 \<le> dashUsed cur"
    and ul: "dashUsed cur < dash ! dashIdx cur"
    by (auto simp add: cursor_valid_def)
  have leftpos: "0 < left" using l ul by simp
  have gt: "left < len" using n1 n2 by simp
  have ce: "\<lceil>(len - left) / ?m\<rceil> \<le> \<lceil>len / ?m\<rceil>"
    using leftpos m by (intro ceiling_mono divide_right_mono) simp_all
  have nn: "0 \<le> \<lceil>(len - left) / ?m\<rceil>"
    using gt m by (simp add: ceiling_le_iff [symmetric] le_less) 
  define A where "A = nat \<lceil>(len - left) / ?m\<rceil>"
  define B where "B = nat \<lceil>len / ?m\<rceil>"
  have AB: "A \<le> B"
    unfolding A_def B_def using ce by (rule nat_mono)
  have AB': "A < B" if "dashUsed cur = 0"
  proof -
    from that have "left = dash ! dashIdx cur" using l by simp
    then have "?m \<le> left" using i by (simp add: dash_min_def)
    then have "(len - left) / ?m \<le> len / ?m - 1"
      using m by (simp add: field_simps)
    then have "\<lceil>(len - left) / ?m\<rceil> \<le> \<lceil>len / ?m - 1\<rceil>"
      by (rule ceiling_mono)
    then have "\<lceil>(len - left) / ?m\<rceil> < \<lceil>len / ?m\<rceil>" by simp
    then show ?thesis
      unfolding A_def B_def using nn lp m by (simp add: nat_less_eq_zless)
  qed
  have "2 * A + 0 < 2 * B + (if dashUsed cur = 0 then 0 else 1)"
    using AB AB' by (cases "dashUsed cur = 0") simp_all
  then show "((dash, next_dash dash cur, pos + left, len - left), (dash, cur, pos, len))
      \<in> measure (\<lambda>(dash, cur, pos, len).
           2 * nat \<lceil>len / dash_min dash\<rceil> + (if dashUsed cur = 0 then 0 else 1))"
    unfolding A_def B_def by (simp add: next_dash_def)
qed

declare dash_walk.simps [simp del]

text \<open>
  Modelled from the spec: the missing \<open>Dasher\<close> applied to a straight segment of length
  \<open>len\<close>, with a dash pattern and a starting phase offset: the phase is walked first, from the
  start of the pattern and without output, and the segment is walked from the cursor
  that this leaves.  A pattern that is empty or has an entry that is not positive, and a
  negative phase, are rejected.
\<close>

datatype dash_error = InvalidDashPattern

definition dash_segment ::
  "real list \<Rightarrow> real \<Rightarrow> real \<Rightarrow> dash_error + (real \<times> real) list" where
  "dash_segment dash phase len =
     (if \<not> dash_valid dash \<or> phase < 0 then Inl InvalidDashPattern
      else
        (let start = snd (dash_walk dash \<lparr> dashIdx = 0, dashUsed = 0, dashOn = True \<rparr> 0 phase)
         in Inr (fst (dash_walk dash start 0 len))))"

section \<open>Curve monotonizer\<close>




















definition intervals :: "real \<Rightarrow> real list \<Rightarrow> (real \<times> real) list" where
  "intervals prev ts = zip (prev # ts) (ts @ [1])"






section \<open>JawsAnnouncer.cpp: \<open>JawsAnnounce\<close>\<close>

text \<open>
  \<open>JawsAnnounce\<close> keeps three function-local statics: the id of the thread of the first
  call (\<open>comInitThreadId\<close>, initialised when control first passes its declaration), the
  COM initialisation wrapper (one field, \<open>m_initializeResult\<close>, constructed as
  \<open>CO_E_NOTINITIALIZED\<close>) and the JAWS API object pointer (constructed null).  They are
  the state of the model.  Everything the function asks of Windows, COM and JNI during
  one call is an argument (\<open>JawsAnnounce_env\<close>), and everything it does to them is
  recorded, in order, as a list of effects.  \<open>HRESULT\<close> and \<open>DWORD\<close> are 32-bit words,
  \<open>VARIANT_BOOL\<close> is a 16-bit word, with the values the Windows SDK fixes for the named
  constants.  The constant \<open>sun_swing_AccessibleAnnouncer_ANNOUNCE_WITHOUT_INTERRUPTING_CURRENT_OUTPUT\<close>
  comes from a generated header and is an argument, as is whether the file is compiled
  with \<open>DEBUG\<close>.  The two \<open>DASSERT\<close> lines expand to nothing in a release build and
  are left out.  A log entry is recorded by its leading text.
\<close>

type_synonym DWORD = "32 word"
type_synonym HRESULT = "32 word"
type_synonym VARIANT_BOOL = "16 word"

definition S_OK :: HRESULT where "S_OK = 0"
definition S_FALSE :: HRESULT where "S_FALSE = 1"
definition RPC_E_CHANGED_MODE :: HRESULT where "RPC_E_CHANGED_MODE = 0x80010106"
definition CO_E_NOTINITIALIZED :: HRESULT where "CO_E_NOTINITIALIZED = 0x800401F0"
definition VARIANT_TRUE :: VARIANT_BOOL where "VARIANT_TRUE = - 1"
definition VARIANT_FALSE :: VARIANT_BOOL where "VARIANT_FALSE = 0"

definition FAILED :: "HRESULT \<Rightarrow> bool" where
  "FAILED hr \<longleftrightarrow> hr <s 0"

definition isInitialized :: "HRESULT \<Rightarrow> bool" where
  "isInitialized m_initializeResult \<longleftrightarrow>
     m_initializeResult = S_OK \<or> m_initializeResult = S_FALSE \<or>
     m_initializeResult = RPC_E_CHANGED_MODE"

datatype effect =
    LogEntry string
  | Stderr string
  | CoInitialize
  | CoCreateInstance
  | Release addr
  | GetStringChars
  | ReleaseStringChars
  | SysAllocString
  | SysFreeString
  | SayString addr VARIANT_BOOL
  | ThrowOutOfMemoryError string

definition tryInitialize :: "HRESULT \<Rightarrow> HRESULT \<Rightarrow> HRESULT \<times> effect list" where
  "tryInitialize CoInitialize_result m_initializeResult =
     (if \<not> isInitialized m_initializeResult then (CoInitialize_result, [CoInitialize])
      else (m_initializeResult, []))"

record JawsAnnounce_statics =
  comInitThreadId :: "DWORD option"
  m_initializeResult :: HRESULT
  pJawsApi :: "addr option"

text \<open>The statics before the first call.\<close>

definition statics0 :: JawsAnnounce_statics where
  "statics0 = \<lparr> comInitThreadId = None, m_initializeResult = CO_E_NOTINITIALIZED,
                pJawsApi = None \<rparr>"

record JawsAnnounce_env =
  CoInitialize_result :: HRESULT
  CoCreateInstance_result :: "HRESULT \<times> addr option"
  GetStringChars_result :: "addr option"
  ExceptionCheck_result :: bool
  SysAllocString_result :: "addr option"
  SayString_result :: "HRESULT \<times> VARIANT_BOOL"

definition debug_print :: "bool \<Rightarrow> string \<Rightarrow> effect list" where
  "debug_print DEBUG msg = (if DEBUG then [Stderr msg] else [])"

definition throw_unless_pending :: "bool \<Rightarrow> string \<Rightarrow> effect list" where
  "throw_unless_pending pending msg = (if \<not> pending then [ThrowOutOfMemoryError msg] else [])"

text \<open>
  The part of \<open>JawsAnnounce\<close> from "obtaining the string to speak" to the end (lines 463
  to 530), which both ways of reaching a non-null \<open>pJawsApi\<close> share.
\<close>

definition say ::
  "bool \<Rightarrow> JawsAnnounce_env \<Rightarrow> addr \<Rightarrow> VARIANT_BOOL \<Rightarrow> bool \<times> effect list" where
  "say DEBUG env api interrupt =
     (case GetStringChars_result env of
        None \<Rightarrow>
          (False, [LogEntry ''JawsAnnounce: obtaining the string to speak...'', GetStringChars]
             @ throw_unless_pending (ExceptionCheck_result env)
                 ''JawsAnnounce: failed to obtain chars from the announcing string''
             @ [LogEntry ''<- JawsAnnounce: jStringToSpeak=nullptr''])
      | Some jStringToSpeak \<Rightarrow>
          (let t = [LogEntry ''JawsAnnounce: obtaining the string to speak...'', GetStringChars,
                    LogEntry ''JawsAnnounce: jStringToSpeak='', SysAllocString,
                    LogEntry ''JawsAnnounce: stringToSpeak='', ReleaseStringChars]
           in case SysAllocString_result env of
                None \<Rightarrow>
                  (False, t @ throw_unless_pending (ExceptionCheck_result env)
                              ''JawsAnnounce: failed to allocate memory for the announcing string''
                            @ [LogEntry ''<- JawsAnnounce: stringToSpeak=nullptr''])
              | Some stringToSpeak \<Rightarrow>
                  (let (comCallResult, jawsSucceeded) = SayString_result env;
                       t1 = t @ [LogEntry ''JawsAnnounce: trying to say the string through COM...'',
                                 SayString api interrupt,
                                 LogEntry ''JawsAnnounce: the COM call has finished...'',
                                 SysFreeString,
                                 LogEntry ''JawsAnnounce: stringToSpeak has been freed'']
                   in if FAILED comCallResult then
                        (False, t1 @ debug_print DEBUG ''JawsAnnounce: failed to invoke COM function to say string''
                                  @ [LogEntry ''<- JawsAnnounce: the COM call has failed ; HRESULT=''])
                      else if jawsSucceeded \<noteq> VARIANT_TRUE then
                        (False, t1 @ debug_print DEBUG ''JawsAnnounce: failed to say string''
                                  @ [LogEntry ''<- JawsAnnounce: failed to announce the string ; code=''])
                      else (True, t1 @ [LogEntry ''<- JawsAnnounce: SUCCEEDED.'']))))"

definition JawsAnnounce ::
  "bool \<Rightarrow> jint \<Rightarrow> DWORD \<Rightarrow> JawsAnnounce_env \<Rightarrow> jint \<Rightarrow> JawsAnnounce_statics
     \<Rightarrow> bool \<times> JawsAnnounce_statics \<times> effect list" where
  "JawsAnnounce DEBUG ANNOUNCE_WITHOUT_INTERRUPTING_CURRENT_OUTPUT currThread env priority s =
     (let t0 = [LogEntry ''JawsAnnounce(env=''];
          tid = (case comInitThreadId s of None \<Rightarrow> currThread | Some t \<Rightarrow> t);
          s1 = s \<lparr> comInitThreadId := Some tid \<rparr>
      in if currThread \<noteq> tid then
           (False, s1, t0 @ debug_print DEBUG ''JawsAnnounce: currThread != comInitThreadId.''
                          @ [LogEntry ''<- JawsAnnounce: currThread(''])
         else
           (let (res, ti) = tryInitialize (CoInitialize_result env) (m_initializeResult s1);
                s2 = s1 \<lparr> m_initializeResult := res \<rparr>;
                t1 = t0 @ [LogEntry ''JawsAnnounce: trying to initialize COM...''] @ ti
            in if \<not> isInitialized (m_initializeResult s2) then
                 (False, s2, t1 @ debug_print DEBUG ''JawsAnnounce: CoInitialize failed''
                                @ [LogEntry ''<- JawsAnnounce: CoInitialize failed ; HRESULT=''])
               else
                 (let t2 = t1 @ [LogEntry ''JawsAnnounce: COM is initialized.'',
                                 LogEntry ''JawsAnnounce: trying to initialize pJawsApi instance...'']
                  in case pJawsApi s2 of
                       Some api \<Rightarrow>
                         (let interrupt = (if priority = ANNOUNCE_WITHOUT_INTERRUPTING_CURRENT_OUTPUT
                                           then VARIANT_FALSE else VARIANT_TRUE);
                              (ok, t3) = say DEBUG env api interrupt
                          in (ok, s2, t2 @ [LogEntry ''JawsAnnounce: pJawsApi is initialized.''] @ t3))
                     | None \<Rightarrow>
                         (case CoCreateInstance_result env of
                            (hr, None) \<Rightarrow>
                              (False, s2 \<lparr> pJawsApi := None \<rparr>,
                               t2 @ [CoCreateInstance]
                                  @ debug_print DEBUG ''JawsAnnounce: CoCreateInstance failed''
                                  @ [LogEntry ''<- JawsAnnounce: CoCreateInstance failed ; HRESULT=''])
                          | (hr, Some obj) \<Rightarrow>
                              if hr \<noteq> S_OK then
                                (False, s2 \<lparr> pJawsApi := None \<rparr>,
                                 t2 @ [CoCreateInstance]
                                    @ debug_print DEBUG ''JawsAnnounce: CoCreateInstance failed''
                                    @ [Release obj,
                                       LogEntry ''<- JawsAnnounce: CoCreateInstance failed ; HRESULT=''])
                              else
                                (let interrupt = (if priority = ANNOUNCE_WITHOUT_INTERRUPTING_CURRENT_OUTPUT
                                                  then VARIANT_FALSE else VARIANT_TRUE);
                                     (ok, t3) = say DEBUG env obj interrupt
                                 in (ok, s2 \<lparr> pJawsApi := Some obj \<rparr>,
                                     t2 @ [CoCreateInstance,
                                           LogEntry ''JawsAnnounce: pJawsApi is initialized.'']
                                        @ t3))))))"

text \<open>
  The effects that touch COM, JNI strings or the screen reader: everything except the
  diagnostic output.
\<close>

definition com_effect :: "effect \<Rightarrow> bool" where
  "com_effect e = (case e of LogEntry m \<Rightarrow> False | Stderr m \<Rightarrow> False | _ \<Rightarrow> True)"

text \<open>An environment in which every request succeeds.\<close>

definition env_ok :: JawsAnnounce_env where
  "env_ok = \<lparr> CoInitialize_result = S_OK, CoCreateInstance_result = (S_OK, Some 3),
     GetStringChars_result = Some 4, ExceptionCheck_result = False,
     SysAllocString_result = Some 5, SayString_result = (S_OK, VARIANT_TRUE) \<rparr>"

section \<open>Properties of \<open>initOps\<close>\<close>

lemma initOps_reaches_clamp:
  "width (Java_sun_java2d_vulkan_WLVKSurfaceData_initOps False (Some v) m w h bg) =
     (if w \<le>s 0 then 1 else w) \<and>
   height (Java_sun_java2d_vulkan_WLVKSurfaceData_initOps False (Some v) m w h bg) =
     (if h \<le>s 0 then 1 else h)"
  by (simp add: Java_sun_java2d_vulkan_WLVKSurfaceData_initOps_def Let_def split: option.split)

lemma clamp_positive: "0 <s (if (w::jint) \<le>s 0 then 1 else w)"
  by (simp add: word_sle_eq word_sless_alt)

text \<open>
  Claim C9.  In a build without \<open>HEADLESS\<close>, once \<open>SurfaceData_InitOps\<close> has returned a
  non-null ops structure, a width that is not positive (as a signed 32-bit integer) is
  replaced by 1 and a height that is not positive is replaced by 1, positive values are
  kept, and so both are strictly positive from there on, whatever \<open>malloc\<close> answers.
  In every call at all, a surface whose ops were installed has strictly positive width
  and height.
\<close>

theorem initOps_clamps_dimensions:
  fixes w h bg :: jint
  defines "r \<equiv> Java_sun_java2d_vulkan_WLVKSurfaceData_initOps"
  shows "(w \<le>s 0 \<longrightarrow> width (r False (Some v) m w h bg) = 1) \<and>
         (h \<le>s 0 \<longrightarrow> height (r False (Some v) m w h bg) = 1) \<and>
         (0 <s w \<longrightarrow> width (r False (Some v) m w h bg) = w) \<and>
         (0 <s h \<longrightarrow> height (r False (Some v) m w h bg) = h) \<and>
         0 <s width (r False (Some v) m w h bg) \<and>
         0 <s height (r False (Some v) m w h bg) \<and>
         (sdOpsInstalled (r hl sd m w h bg) \<longrightarrow>
            0 <s width (r hl sd m w h bg) \<and> 0 <s height (r hl sd m w h bg))"
proof -
  have a: "width (r False (Some v) m w h bg) = (if w \<le>s 0 then 1 else w)"
    and b: "height (r False (Some v) m w h bg) = (if h \<le>s 0 then 1 else h)"
    using initOps_reaches_clamp [of v m w h bg] by (simp_all add: r_def)
  have c: "sdOpsInstalled (r hl sd m w h bg) \<Longrightarrow>
        0 <s width (r hl sd m w h bg) \<and> 0 <s height (r hl sd m w h bg)"
    by (auto simp add: r_def Java_sun_java2d_vulkan_WLVKSurfaceData_initOps_def Let_def
          word_sle_eq word_sless_alt split: option.splits if_splits)
  show ?thesis
    using c by (auto simp add: a b word_sle_eq word_sless_alt)
qed

theorem initOps_clamps_dimensions_witness:
  "width (Java_sun_java2d_vulkan_WLVKSurfaceData_initOps False (Some 7) (Some 9) (- 5) 0 0) = 1 \<and>
   height (Java_sun_java2d_vulkan_WLVKSurfaceData_initOps False (Some 7) (Some 9) (- 5) 0 0) = 1 \<and>
   width (Java_sun_java2d_vulkan_WLVKSurfaceData_initOps False (Some 7) (Some 9) 640 480 0) = 640 \<and>
   height (Java_sun_java2d_vulkan_WLVKSurfaceData_initOps False (Some 7) (Some 9) 640 480 0) = 480 \<and>
   sdOpsInstalled (Java_sun_java2d_vulkan_WLVKSurfaceData_initOps False (Some 7) (Some 9) (- 5) 0 0)"
proof -
  have neg: "(- 5 :: jint) \<le>s 0" and zero: "(0 :: jint) \<le>s 0"
    and p1: "0 <s (640 :: jint)" and p2: "0 <s (480 :: jint)"
    by (simp_all add: word_sle_eq word_sless_alt)
  have inst: "sdOpsInstalled
      (Java_sun_java2d_vulkan_WLVKSurfaceData_initOps False (Some 7) (Some 9) (- 5) 0 0)"
    by (simp add: Java_sun_java2d_vulkan_WLVKSurfaceData_initOps_def Let_def)
  from initOps_clamps_dimensions
         [where w = "- 5" and h = 0 and bg = 0 and v = 7 and m = "Some 9"
            and hl = False and sd = "Some 7"]
       initOps_clamps_dimensions
         [where w = 640 and h = 480 and bg = 0 and v = 7 and m = "Some 9"
            and hl = False and sd = "Some 7"]
       neg zero p1 p2 inst
  show ?thesis by blast
qed

section \<open>Properties of \<open>dispose\<close>\<close>

lemma dispose_returns:
  assumes "DO_STATS \<longrightarrow> stats (ctx st) \<noteq> None"
  shows "\<exists>st'. dispose DO_STATS N D S st = Inr st'"
  using assms by (auto simp add: dispose_def Let_def)

lemma dispose_ctx:
  assumes "dispose DO_STATS N D S st = Inr st'"
  shows "ctx st' = (ctx st) \<lparr> stats := (if DO_STATS then map_option dispose_stats (stats (ctx st))
                                        else stats (ctx st)),
            stroking := 0, doClip := False, closedPath := False,
            clipInvScale := 0, firstFlags := 0, dirty := False \<rparr>"
  using assms by (auto simp add: dispose_def Let_def split: if_splits)

lemma dispose_stages_dirty:
  assumes "dispose DO_STATS N D S st = Inr st'" "dirty (ctx st)"
  shows "stages st' =
     (let c = ctx st; h = stages st;
          h1 = h (nPCPathIterator c := N (h (nPCPathIterator c)));
          h2 = h1 (nPQPathIterator c := N (h1 (nPQPathIterator c)));
          h3 = h2 (dasher c := D (h2 (dasher c)))
      in h3 (stroker c := S (h3 (stroker c))))"
  using assms by (auto simp add: dispose_def Let_def split: if_splits)

lemma dispose_stages_clean:
  assumes "dispose DO_STATS N D S st = Inr st'" "\<not> dirty (ctx st)"
  shows "stages st' = stages st"
  using assms by (auto simp add: dispose_def Let_def split: if_splits)

lemma dispose_rest:
  assumes "dispose DO_STATS N D S st = Inr st'"
  shows "paths st' = paths st \<and> nextAddr st' = nextAddr st"
  using assms by (auto simp add: dispose_def Let_def split: if_splits)

lemma dispose_stages_other:
  assumes r: "dispose DO_STATS N D S st = Inr st'"
    and a: "a \<noteq> nPCPathIterator (ctx st)" "a \<noteq> nPQPathIterator (ctx st)"
           "a \<noteq> dasher (ctx st)" "a \<noteq> stroker (ctx st)"
  shows "stages st' a = stages st a"
proof (cases "dirty (ctx st)")
  case True
  show ?thesis using a by (simp add: dispose_stages_dirty [OF r True] Let_def)
next
  case False
  then show ?thesis by (simp add: dispose_stages_clean [OF r])
qed

lemma dispose_stages_reset:
  assumes r: "dispose DO_STATS N D S st = Inr st'" and d: "dirty (ctx st)"
    and dis: "distinct [nPCPathIterator (ctx st), nPQPathIterator (ctx st),
                        dasher (ctx st), stroker (ctx st)]"
  shows "stages st' (nPCPathIterator (ctx st)) = N (stages st (nPCPathIterator (ctx st)))"
    and "stages st' (nPQPathIterator (ctx st)) = N (stages st (nPQPathIterator (ctx st)))"
    and "stages st' (dasher (ctx st)) = D (stages st (dasher (ctx st)))"
    and "stages st' (stroker (ctx st)) = S (stages st (stroker (ctx st)))"
  using dis by (simp_all add: dispose_stages_dirty [OF r d] Let_def)

text \<open>
  Claim C1.  A context is marked dirty by the pipeline when an operation fails (that
  assignment is made outside this file; here it is the case \<open>dirty\<close>).  On a context as
  the constructor builds it, \<open>dispose()\<close> returns, and the returned context is not dirty,
  whether it was dirty or not.  If it was dirty, the two normalizing path iterators, the
  dasher and the stroker have each been put through their own \<open>dispose\<close>, and no other
  object has changed: in particular the renderer and the coverage cache are as they
  were.  If it was not dirty, no stage has changed at all.
\<close>

theorem dispose_dirty_cleanup:
  assumes inv: "DO_STATS \<longrightarrow> stats (ctx st) \<noteq> None"
    and dis: "distinct (stage_refs (ctx st))"
  shows "\<exists>st'. dispose DO_STATS N D S st = Inr st' \<and> \<not> dirty (ctx st') \<and>
     (dirty (ctx st) \<longrightarrow>
        stages st' (nPCPathIterator (ctx st)) = N (stages st (nPCPathIterator (ctx st))) \<and>
        stages st' (nPQPathIterator (ctx st)) = N (stages st (nPQPathIterator (ctx st))) \<and>
        stages st' (dasher (ctx st)) = D (stages st (dasher (ctx st))) \<and>
        stages st' (stroker (ctx st)) = S (stages st (stroker (ctx st)))) \<and>
     stages st' (renderer (ctx st)) = stages st (renderer (ctx st)) \<and>
     stages st' (cache (ctx st)) = stages st (cache (ctx st)) \<and>
     (\<forall>a. a \<notin> {nPCPathIterator (ctx st), nPQPathIterator (ctx st), dasher (ctx st),
                 stroker (ctx st)} \<longrightarrow> stages st' a = stages st a) \<and>
     (\<not> dirty (ctx st) \<longrightarrow> stages st' = stages st)"
proof -
  from dispose_returns [OF inv] obtain st' where r: "dispose DO_STATS N D S st = Inr st'"
    by blast
  have four: "distinct [nPCPathIterator (ctx st), nPQPathIterator (ctx st),
                        dasher (ctx st), stroker (ctx st)]"
    using dis by (auto simp add: stage_refs_def)
  have 1: "\<not> dirty (ctx st')"
    using dispose_ctx [OF r] by simp
  have 2: "\<not> dirty (ctx st) \<longrightarrow> stages st' = stages st"
    using dispose_stages_clean [OF r] by simp
  have 3: "\<forall>a. a \<notin> {nPCPathIterator (ctx st), nPQPathIterator (ctx st), dasher (ctx st),
                 stroker (ctx st)} \<longrightarrow> stages st' a = stages st a"
    using dispose_stages_other [OF r] by simp
  have nr: "renderer (ctx st) \<noteq> nPCPathIterator (ctx st)"
      "renderer (ctx st) \<noteq> nPQPathIterator (ctx st)"
      "renderer (ctx st) \<noteq> dasher (ctx st)" "renderer (ctx st) \<noteq> stroker (ctx st)"
    and nc: "cache (ctx st) \<noteq> nPCPathIterator (ctx st)"
      "cache (ctx st) \<noteq> nPQPathIterator (ctx st)"
      "cache (ctx st) \<noteq> dasher (ctx st)" "cache (ctx st) \<noteq> stroker (ctx st)"
    using dis by (auto simp add: stage_refs_def)
  have 4: "stages st' (renderer (ctx st)) = stages st (renderer (ctx st))"
    by (rule dispose_stages_other [OF r nr])
  have 5: "stages st' (cache (ctx st)) = stages st (cache (ctx st))"
    by (rule dispose_stages_other [OF r nc])
  have 6: "dirty (ctx st) \<longrightarrow>
        stages st' (nPCPathIterator (ctx st)) = N (stages st (nPCPathIterator (ctx st))) \<and>
        stages st' (nPQPathIterator (ctx st)) = N (stages st (nPQPathIterator (ctx st))) \<and>
        stages st' (dasher (ctx st)) = D (stages st (dasher (ctx st))) \<and>
        stages st' (stroker (ctx st)) = S (stages st (stroker (ctx st)))"
    using dispose_stages_reset [OF r _ four] by simp
  from r 1 2 3 4 5 6 show ?thesis by blast
qed

lemma jvm_dirty_facts:
  "stats (ctx jvm_dirty) = None" "dirty (ctx jvm_dirty)"
  "distinct (stage_refs (ctx jvm_dirty))"
  "nPCPathIterator (ctx jvm_dirty) = 1" "nPQPathIterator (ctx jvm_dirty) = 2"
  "dasher (ctx jvm_dirty) = 13" "stroker (ctx jvm_dirty) = 10"
  "renderer (ctx jvm_dirty) = 7" "cache (ctx jvm_dirty) = 6"
  "stages jvm_dirty = (\<lambda>a. 100 + a)"
  by (simp_all add: jvm_dirty_def jvm0_def ctx0_def stage_refs_def)

theorem dispose_dirty_cleanup_witness:
  "\<exists>st'. dispose False (\<lambda>s. 0) (\<lambda>s. 1) (\<lambda>s. 2) jvm_dirty = Inr st' \<and> \<not> dirty (ctx st') \<and>
     stages st' 1 = 0 \<and> stages st' 2 = 0 \<and> stages st' 13 = 1 \<and> stages st' 10 = 2 \<and>
     stages st' 7 = 107 \<and> stages st' 6 = 106"
  using dispose_dirty_cleanup [where DO_STATS = False and st = jvm_dirty
          and N = "\<lambda>s. 0" and D = "\<lambda>s. 1" and S = "\<lambda>s. 2"]
  by (simp add: jvm_dirty_facts, blast)

text \<open>
  Claim C6.  On a context as the constructor builds it, \<open>dispose()\<close> returns a context
  with \<open>stroking = 0\<close>, \<open>doClip = false\<close>, \<open>closedPath = false\<close>, \<open>clipInvScale = 0.0\<close> and
  \<open>firstFlags = 0\<close>, whatever these were and whether the context was dirty or not.  Every
  stage field (renderer, stroker, dasher, cache, both tile generators and the others)
  refers to the same object as before, the recycled path reference is untouched, and
  nothing is allocated.
\<close>

theorem dispose_resets_operation_state:
  assumes inv: "DO_STATS \<longrightarrow> stats (ctx st) \<noteq> None"
  shows "\<exists>st'. dispose DO_STATS N D S st = Inr st' \<and>
     stroking (ctx st') = 0 \<and> \<not> doClip (ctx st') \<and> \<not> closedPath (ctx st') \<and>
     clipInvScale (ctx st') = 0 \<and> firstFlags (ctx st') = 0 \<and>
     renderer (ctx st') = renderer (ctx st) \<and> stroker (ctx st') = stroker (ctx st) \<and>
     dasher (ctx st') = dasher (ctx st) \<and> cache (ctx st') = cache (ctx st) \<and>
     ptg (ctx st') = ptg (ctx st) \<and> ftg (ctx st') = ftg (ctx st) \<and>
     stage_refs (ctx st') = stage_refs (ctx st) \<and>
     refPath2D (ctx st') = refPath2D (ctx st) \<and>
     paths st' = paths st \<and> nextAddr st' = nextAddr st"
proof -
  from dispose_returns [OF inv] obtain st' where r: "dispose DO_STATS N D S st = Inr st'"
    by blast
  note c = dispose_ctx [OF r]
  have "stroking (ctx st') = 0 \<and> \<not> doClip (ctx st') \<and> \<not> closedPath (ctx st') \<and>
     clipInvScale (ctx st') = 0 \<and> firstFlags (ctx st') = 0"
    by (simp add: c)
  moreover have "renderer (ctx st') = renderer (ctx st) \<and> stroker (ctx st') = stroker (ctx st) \<and>
     dasher (ctx st') = dasher (ctx st) \<and> cache (ctx st') = cache (ctx st) \<and>
     ptg (ctx st') = ptg (ctx st) \<and> ftg (ctx st') = ftg (ctx st)"
    by (simp add: c)
  moreover have "stage_refs (ctx st') = stage_refs (ctx st)"
    by (simp add: c stage_refs_def)
  moreover have "refPath2D (ctx st') = refPath2D (ctx st)"
    by (simp add: c)
  ultimately show ?thesis using r dispose_rest [OF r] by blast
qed

theorem dispose_resets_operation_state_witness:
  "stroking (ctx jvm_dirty) = 1 \<and> doClip (ctx jvm_dirty) \<and> closedPath (ctx jvm_dirty) \<and>
   clipInvScale (ctx jvm_dirty) \<noteq> 0 \<and> firstFlags (ctx jvm_dirty) = 5 \<and>
   (\<exists>st'. dispose False (\<lambda>s. 0) (\<lambda>s. 1) (\<lambda>s. 2) jvm_dirty = Inr st' \<and>
     stroking (ctx st') = 0 \<and> \<not> doClip (ctx st') \<and> \<not> closedPath (ctx st') \<and>
     clipInvScale (ctx st') = 0 \<and> firstFlags (ctx st') = 0 \<and>
     renderer (ctx st') = 7 \<and> stroker (ctx st') = 10 \<and> dasher (ctx st') = 13 \<and>
     cache (ctx st') = 6 \<and> ptg (ctx st') = 9 \<and> ftg (ctx st') = 8)"
proof -
  have a: "stroking (ctx jvm_dirty) = 1 \<and> doClip (ctx jvm_dirty) \<and> closedPath (ctx jvm_dirty) \<and>
     clipInvScale (ctx jvm_dirty) \<noteq> 0 \<and> firstFlags (ctx jvm_dirty) = 5"
    by (simp add: jvm_dirty_def jvm0_def ctx0_def)
  have b: "ptg (ctx jvm_dirty) = 9" "ftg (ctx jvm_dirty) = 8"
    by (simp_all add: jvm_dirty_def jvm0_def ctx0_def)
  show ?thesis
    using a dispose_resets_operation_state [where DO_STATS = False and st = jvm_dirty
          and N = "\<lambda>s. 0" and D = "\<lambda>s. 1" and S = "\<lambda>s. 2"]
    by (simp add: jvm_dirty_facts b, blast)
qed

section \<open>Properties of \<open>getPath2D\<close>\<close>

lemma getPath2D_live:
  assumes "refPath2D (ctx st) = Some (WeakReference (Some a))"
  shows "getPath2D new reset W I st = (a, st \<lparr> paths := (paths st) (a := reset (paths st a)) \<rparr>)"
  using assms by (simp add: getPath2D_def WeakReference_get_def)

lemma getPath2D_fresh:
  assumes "refPath2D (ctx st) = None \<or> refPath2D (ctx st) = Some (WeakReference None)"
  shows "getPath2D new reset W I st =
     (nextAddr st,
      st \<lparr> ctx := (ctx st) \<lparr> refPath2D := Some (WeakReference (Some (nextAddr st))) \<rparr>,
           paths := (paths st) (nextAddr st := reset (new W I)),
           nextAddr := Suc (nextAddr st) \<rparr>)"
  using assms by (auto simp add: getPath2D_def WeakReference_get_def Let_def)

lemma refPath2D_cases:
  obtains (null) "refPath2D (ctx st) = None"
  | (cleared) "refPath2D (ctx st) = Some (WeakReference None)"
  | (live) a where "refPath2D (ctx st) = Some (WeakReference (Some a))"
proof (cases "refPath2D (ctx st)")
  case None
  then show ?thesis by (rule null)
next
  case (Some r)
  then show ?thesis
    by (cases r; cases "referent r") (auto intro: cleared live)
qed

lemma getPath2D_leaves_live_reference:
  "refPath2D (ctx (snd (getPath2D new reset W I st))) =
     Some (WeakReference (Some (fst (getPath2D new reset W I st))))"
  by (cases st rule: refPath2D_cases) (simp_all add: getPath2D_live getPath2D_fresh)

text \<open>
  Claim C7, as the code has it.  The path is held through a weak reference.  While the
  field is non-null and its referent has not been cleared, \<open>getPath2D\<close> returns that
  referent, allocates nothing and leaves the field alone; so two calls with no
  collection in between return the same instance.  When the field is null or the
  referent has been collected, \<open>getPath2D\<close> takes the other branch: it returns a newly
  allocated instance and stores a new weak reference to it.
\<close>

theorem getPath2D_weak_reuse:
  "(refPath2D (ctx st) = Some (WeakReference (Some a)) \<longrightarrow>
      fst (getPath2D new reset W I st) = a \<and>
      refPath2D (ctx (snd (getPath2D new reset W I st))) = refPath2D (ctx st) \<and>
      nextAddr (snd (getPath2D new reset W I st)) = nextAddr st) \<and>
   (refPath2D (ctx st) = None \<or> refPath2D (ctx st) = Some (WeakReference None) \<longrightarrow>
      fst (getPath2D new reset W I st) = nextAddr st \<and>
      refPath2D (ctx (snd (getPath2D new reset W I st))) =
        Some (WeakReference (Some (nextAddr st))) \<and>
      nextAddr (snd (getPath2D new reset W I st)) = Suc (nextAddr st)) \<and>
   fst (getPath2D new reset W I (snd (getPath2D new reset W I st))) =
     fst (getPath2D new reset W I st)"
proof (intro conjI impI)
  show "fst (getPath2D new reset W I (snd (getPath2D new reset W I st))) =
     fst (getPath2D new reset W I st)"
  proof -
    have "getPath2D new reset W I (snd (getPath2D new reset W I st)) =
        (fst (getPath2D new reset W I st),
         (snd (getPath2D new reset W I st))
           \<lparr> paths := (paths (snd (getPath2D new reset W I st)))
                 (fst (getPath2D new reset W I st) :=
                    reset (paths (snd (getPath2D new reset W I st))
                             (fst (getPath2D new reset W I st)))) \<rparr>)"
      by (rule getPath2D_live) (rule getPath2D_leaves_live_reference)
    then show ?thesis by simp
  qed
qed (simp_all add: getPath2D_live getPath2D_fresh)

theorem getPath2D_weak_reuse_witness:
  "refPath2D (ctx jvm0) = None \<and>
   fst (getPath2D Path2D_Double_new Path2D_Double_reset 1 4096 jvm0) = 14 \<and>
   refPath2D (ctx (snd (getPath2D Path2D_Double_new Path2D_Double_reset 1 4096 jvm0))) =
     Some (WeakReference (Some 14)) \<and>
   fst (getPath2D Path2D_Double_new Path2D_Double_reset 1 4096
          (snd (getPath2D Path2D_Double_new Path2D_Double_reset 1 4096 jvm0))) = 14 \<and>
   refPath2D (ctx jvm_reuse) = Some (WeakReference (Some 14)) \<and>
   fst (getPath2D Path2D_Double_new Path2D_Double_reset 1 4096 jvm_reuse) = 14 \<and>
   nextAddr (snd (getPath2D Path2D_Double_new Path2D_Double_reset 1 4096 jvm_reuse)) = 15"
proof -
  have a: "refPath2D (ctx jvm0) = None" "nextAddr jvm0 = 14"
    by (simp_all add: jvm0_def ctx0_def)
  have b: "refPath2D (ctx jvm_reuse) = Some (WeakReference (Some 14))" "nextAddr jvm_reuse = 15"
    by (simp_all add: jvm_reuse_def jvm0_def ctx0_def)
  show ?thesis
    using getPath2D_weak_reuse [where st = jvm0 and new = Path2D_Double_new
            and reset = Path2D_Double_reset and W = 1 and I = 4096 and a = 14]
          getPath2D_weak_reuse [where st = jvm_reuse and new = Path2D_Double_new
            and reset = Path2D_Double_reset and W = 1 and I = 4096 and a = 14]
    by (simp add: a b)
qed

text \<open>
  Claim C7, as stated, fails: after a first call, a collection of the path that the
  caller has dropped makes the next call return a different instance.
\<close>

theorem getPath2D_same_instance_counterexample:
  "fst (getPath2D Path2D_Double_new Path2D_Double_reset 1 4096
          (collect (snd (getPath2D Path2D_Double_new Path2D_Double_reset 1 4096 jvm0))))
     \<noteq> fst (getPath2D Path2D_Double_new Path2D_Double_reset 1 4096 jvm0)"
  by (simp add: getPath2D_def collect_def WeakReference_get_def jvm0_def ctx0_def Let_def)

text \<open>
  Claim C8.  The object that \<open>getPath2D\<close> returns has \<open>reset()\<close> as the last operation
  applied to it, on the branch that creates it as on the branch that reuses it; so
  whenever \<open>reset()\<close> leaves a path empty, the returned path is empty.
\<close>

theorem getPath2D_returns_reset_path:
  "(\<exists>p. paths (snd (getPath2D new reset W I st)) (fst (getPath2D new reset W I st)) = reset p) \<and>
   ((\<forall>p. isEmpty (reset p)) \<longrightarrow>
      isEmpty (paths (snd (getPath2D new reset W I st)) (fst (getPath2D new reset W I st))))"
proof -
  have "\<exists>p. paths (snd (getPath2D new reset W I st)) (fst (getPath2D new reset W I st)) = reset p"
    by (cases st rule: refPath2D_cases) (auto simp add: getPath2D_live getPath2D_fresh)
  then show ?thesis by auto
qed

theorem getPath2D_returns_reset_path_witness:
  "\<not> Path2D_Double_isEmpty (paths jvm_reuse 14) \<and>
   Path2D_Double_isEmpty
     (paths (snd (getPath2D Path2D_Double_new Path2D_Double_reset 1 4096 jvm_reuse))
        (fst (getPath2D Path2D_Double_new Path2D_Double_reset 1 4096 jvm_reuse))) \<and>
   Path2D_Double_isEmpty
     (paths (snd (getPath2D Path2D_Double_new Path2D_Double_reset 1 4096 jvm0))
        (fst (getPath2D Path2D_Double_new Path2D_Double_reset 1 4096 jvm0)))"
proof -
  have e: "\<forall>p. Path2D_Double_isEmpty (Path2D_Double_reset p)"
    by (simp add: Path2D_Double_isEmpty_def Path2D_Double_reset_def)
  have u: "\<not> Path2D_Double_isEmpty (paths jvm_reuse 14)"
    by (simp add: Path2D_Double_isEmpty_def jvm_reuse_def jvm0_def)
  show ?thesis
    using e u
      getPath2D_returns_reset_path [where st = jvm_reuse and new = Path2D_Double_new
        and reset = Path2D_Double_reset and W = 1 and I = 4096
        and isEmpty = Path2D_Double_isEmpty]
      getPath2D_returns_reset_path [where st = jvm0 and new = Path2D_Double_new
        and reset = Path2D_Double_reset and W = 1 and I = 4096
        and isEmpty = Path2D_Double_isEmpty]
    by blast
qed

section \<open>Properties of \<open>JawsAnnounce\<close>\<close>

text \<open>
  Claim C10.  The first call captures the calling thread's id.  On every later call from
  a thread with a different id, \<open>JawsAnnounce\<close> returns \<open>false\<close>, leaves its statics as
  they were (so the COM wrapper is not initialised and no JAWS object is created), and
  does nothing to COM, to the Java string or to the screen reader: its only effects are
  diagnostic output.
\<close>

theorem JawsAnnounce_thread_affine:
  "(comInitThreadId s = None \<longrightarrow>
      comInitThreadId (fst (snd (JawsAnnounce DEBUG W currThread env priority s))) =
        Some currThread) \<and>
   (comInitThreadId s = Some t \<and> currThread \<noteq> t \<longrightarrow>
      fst (JawsAnnounce DEBUG W currThread env priority s) = False \<and>
      fst (snd (JawsAnnounce DEBUG W currThread env priority s)) = s \<and>
      filter com_effect (snd (snd (JawsAnnounce DEBUG W currThread env priority s))) = [])"
proof (intro conjI impI)
  assume "comInitThreadId s = None"
  then show "comInitThreadId (fst (snd (JawsAnnounce DEBUG W currThread env priority s))) =
        Some currThread"
    by (simp add: JawsAnnounce_def Let_def split: prod.split option.split)
next
  assume a: "comInitThreadId s = Some t \<and> currThread \<noteq> t"
  then show "fst (JawsAnnounce DEBUG W currThread env priority s) = False"
    by (simp add: JawsAnnounce_def Let_def)
  from a show "fst (snd (JawsAnnounce DEBUG W currThread env priority s)) = s"
    by (simp add: JawsAnnounce_def Let_def)
  from a show "filter com_effect (snd (snd (JawsAnnounce DEBUG W currThread env priority s))) = []"
    by (simp add: JawsAnnounce_def Let_def debug_print_def com_effect_def)
qed

theorem JawsAnnounce_thread_affine_witness:
  "comInitThreadId statics0 = None \<and>
   comInitThreadId (fst (snd (JawsAnnounce False 1 42 env_ok 0 statics0))) = Some 42 \<and>
   fst (JawsAnnounce False 1 42 env_ok 0 statics0) = True \<and>
   fst (JawsAnnounce False 1 43 env_ok 0 (fst (snd (JawsAnnounce False 1 42 env_ok 0 statics0))))
     = False \<and>
   filter com_effect (snd (snd (JawsAnnounce False 1 43 env_ok 0
       (fst (snd (JawsAnnounce False 1 42 env_ok 0 statics0)))))) = []"
proof -
  have a: "comInitThreadId statics0 = None"
    by (simp add: statics0_def)
  have b: "fst (JawsAnnounce False 1 42 env_ok 0 statics0) = True"
    by (simp add: JawsAnnounce_def say_def tryInitialize_def isInitialized_def statics0_def
          env_ok_def Let_def S_OK_def S_FALSE_def RPC_E_CHANGED_MODE_def CO_E_NOTINITIALIZED_def
          VARIANT_TRUE_def FAILED_def word_sless_alt)
  note c = JawsAnnounce_thread_affine [where s = statics0 and DEBUG = False and W = 1
      and currThread = 42 and env = env_ok and priority = 0]
  have d: "comInitThreadId (fst (snd (JawsAnnounce False 1 42 env_ok 0 statics0))) = Some 42"
    using a c by blast
  have e: "(43 :: DWORD) \<noteq> 42" by simp
  from JawsAnnounce_thread_affine [where s = "fst (snd (JawsAnnounce False 1 42 env_ok 0 statics0))"
      and DEBUG = False and W = 1 and currThread = 43 and env = env_ok and priority = 0 and t = 42]
    a b d e
  show ?thesis by blast
qed

section \<open>Properties of the array cache\<close>

lemma first_idle_Some:
  "first_idle as = Some i \<Longrightarrow> i < length as \<and> \<not> taken (as ! i) \<and> (\<forall>k<i. taken (as ! k))"
proof (induction as arbitrary: i)
  case Nil
  then show ?case by simp
next
  case (Cons a as)
  show ?case
  proof (cases "taken a")
    case False
    with Cons.prems show ?thesis by simp
  next
    case True
    with Cons.prems obtain j where j: "first_idle as = Some j" and i: "i = Suc j"
      by auto
    from Cons.IH [OF j] True i show ?thesis
      by (auto simp add: less_Suc_eq_0_disj)
  qed
qed

lemma first_idle_None: "first_idle as = None \<Longrightarrow> \<forall>k<length as. taken (as ! k)"
proof (induction as)
  case Nil
  then show ?case by simp
next
  case (Cons a as)
  then show ?case
    by (auto simp add: less_Suc_eq_0_disj split: if_splits)
qed

lemma first_idle_eq:
  "i < length as \<Longrightarrow> \<not> taken (as ! i) \<Longrightarrow> \<forall>k<i. taken (as ! k) \<Longrightarrow> first_idle as = Some i"
proof (induction as arbitrary: i)
  case Nil
  then show ?case by simp
next
  case (Cons a as)
  show ?case
  proof (cases i)
    case 0
    with Cons.prems show ?thesis by simp
  next
    case (Suc j)
    with Cons.prems have "taken a" by auto
    moreover have "first_idle as = Some j"
      using Cons.prems Suc by (intro Cons.IH) auto
    ultimately show ?thesis using Suc by simp
  qed
qed

lemma length_grow: "length xs \<le> length (grow m xs) \<and> m \<le> length (grow m xs)"
  by (auto simp add: grow_def)

lemma checkout_result:
  assumes "checkout m c = ((i, p), c1)"
  shows "i < length (arrays c1) \<and> taken (arrays c1 ! i) \<and> m \<le> length (elems (arrays c1 ! i)) \<and>
         (\<forall>k<i. taken (arrays c1 ! k)) \<and> poolKind c1 = poolKind c"
proof (cases "first_idle (arrays c)")
  case None
  with assms first_idle_None [OF None] show ?thesis
    by (auto simp add: checkout_def nth_append)
next
  case (Some j)
  from first_idle_Some [OF Some] assms Some show ?thesis
    by (auto simp add: checkout_def Let_def length_grow)
qed

text \<open>
  Claim C4.  In a clean pool, for every list of \<open>N\<close> written elements: if the buffer
  that was checked out has room for them (so that the write succeeds), then after the
  release, whatever \<open>newLength\<close> it is given, a checkout with a requested capacity of at
  most \<open>N\<close> returns a buffer of at least \<open>N\<close> elements whose first \<open>N\<close> elements are
  zero.  The write succeeds whenever the first requested capacity is at least \<open>N\<close>.
\<close>

theorem clean_round_trip_zero:
  assumes clean: "poolKind c = CleanPool" and m': "m' \<le> length xs"
  shows "(length xs \<le> m \<longrightarrow> (\<exists>ys. round_trip m xs newLength m' c = Inr ys)) \<and>
         (\<forall>ys. round_trip m xs newLength m' c = Inr ys \<longrightarrow>
            length xs \<le> length ys \<and> take (length xs) ys = replicate (length xs) 0)"
proof -
  obtain i p c1 where co: "checkout m c = ((i, p), c1)"
    by (metis prod.exhaust)
  note r1 = checkout_result [OF co]
  let ?a = "arrays c1 ! i"
  have main: "round_trip m xs newLength m' c = Inr (replicate (length (elems ?a)) 0)"
    if fit: "length xs \<le> length (elems ?a)"
  proof -
    define c2 where "c2 = c1 \<lparr> arrays := (arrays c1)
        [i := ?a \<lparr> elems := xs @ drop (length xs) (elems ?a) \<rparr>] \<rparr>"
    have w: "write_elems i xs c1 = Inr c2"
      using r1 fit by (simp add: write_elems_def c2_def)
    define c3 where "c3 = c2 \<lparr> arrays := (arrays c2)
        [i := \<lparr> elems = replicate (length (elems ?a)) 0, taken = False,
                lastLength = newLength \<rparr>] \<rparr>"
    have len2: "length (elems (arrays c2 ! i)) = length (elems ?a)"
      using r1 fit by (simp add: c2_def)
    have rel: "release i newLength c2 = Inr c3"
      using r1 clean len2 by (simp add: release_def c3_def Let_def) (simp add: c2_def)
    have idle: "first_idle (arrays c3) = Some i"
      using r1 by (intro first_idle_eq) (auto simp add: c3_def c2_def)
    have a3: "arrays c3 ! i = \<lparr> elems = replicate (length (elems ?a)) 0, taken = False,
                lastLength = newLength \<rparr>"
      using r1 by (simp add: c3_def c2_def)
    have nogrow: "grow m' (replicate (length (elems ?a)) 0) = replicate (length (elems ?a)) 0"
      using m' fit by (simp add: grow_def)
    have co2: "checkout m' c3 =
        ((i, newLength), c3 \<lparr> arrays := (arrays c3)
           [i := \<lparr> elems = replicate (length (elems ?a)) 0, taken = True,
                   lastLength = newLength \<rparr>] \<rparr>)"
      by (simp add: checkout_def idle a3 nogrow)
    have i3: "i < length (arrays c3)"
      using r1 by (simp add: c3_def c2_def)
    show ?thesis
      by (simp add: round_trip_def co w rel co2 i3)
  qed
  have fail: "round_trip m xs newLength m' c = Inl OutOfBounds"
    if "\<not> length xs \<le> length (elems ?a)"
    using that r1 by (simp add: round_trip_def co write_elems_def)
  have 1: "length xs \<le> m \<longrightarrow> (\<exists>ys. round_trip m xs newLength m' c = Inr ys)"
    using main r1 by auto
  have 2: "\<forall>ys. round_trip m xs newLength m' c = Inr ys \<longrightarrow>
            length xs \<le> length ys \<and> take (length xs) ys = replicate (length xs) 0"
  proof (cases "length xs \<le> length (elems ?a)")
    case True
    then show ?thesis by (simp add: main min_def)
  next
    case False
    then show ?thesis by (simp add: fail)
  qed
  from 1 2 show ?thesis by blast
qed

theorem clean_round_trip_zero_witness:
  "round_trip 3 [5, 6, 7] 3 2 (pool_example CleanPool) = Inr [0, 0, 0, 0] \<and>
   round_trip 3 [5, 6, 7] 3 2 (pool_example DirtyPool) = Inr [5, 6, 7, 0]"
proof -
  have a: "poolKind (pool_example CleanPool) = CleanPool"
    by (simp add: pool_example_def)
  have b: "round_trip 3 [5, 6, 7] 3 2 (pool_example CleanPool) = Inr [0, 0, 0, 0]"
    by (simp add: round_trip_def checkout_def write_elems_def release_def pool_example_def
          grow_def Let_def)
  have c: "round_trip 3 [5, 6, 7] 3 2 (pool_example DirtyPool) = Inr [5, 6, 7, 0]"
    by (simp add: round_trip_def checkout_def write_elems_def release_def pool_example_def
          grow_def Let_def)
  from clean_round_trip_zero [where c = "pool_example CleanPool" and xs = "[5, 6, 7]"
      and m = 3 and m' = 2 and newLength = 3] a b c
  show ?thesis by simp
qed

section \<open>Properties of the dasher\<close>

text \<open>
  Claim C5.  Dashing a straight segment of length 16 with the pattern [4, 4] and phase 0
  gives exactly two "on" sub-segments, from offset 0 to 4 and from offset 8 to 12, each
  of length 4.
\<close>

theorem dash_4_4_on_16:
  "dash_segment [4, 4] 0 16 = Inr [(0, 4), (8, 12)]"
  by (simp add: dash_segment_def dash_walk.simps dash_valid_def cursor_valid_def
        next_dash_def emit_def)

theorem dash_4_4_on_16_witness:
  "dash_valid [4, 4] \<and>
   (\<exists>segs. dash_segment [4, 4] 0 16 = Inr segs \<and> length segs = 2 \<and>
      map (\<lambda>(a, b). b - a) segs = [4, 4])"
  using dash_4_4_on_16 by (simp add: dash_valid_def)

section \<open>Properties of the curve monotonizer\<close>

subsection \<open>Splitting restricts the curve to a parameter interval\<close>








lemma length_intervals: "length (intervals prev ts) = Suc (length ts)"
  by (simp add: intervals_def)












subsection \<open>The roots of the derivative\<close>





subsection \<open>Monotonic between consecutive roots\<close>









subsection \<open>The parameter intervals and the Y-ranges\<close>



































end
